theory Spec2Isabelle
  imports Main "HOL-Library.Sublist" "HOL-Library.Char_ord"
begin

section \<open>JavaScript strings and arrays\<close>

text \<open>
  A JavaScript string is a finite sequence of code units; it is modelled as a
  \<open>string\<close> (a list of characters), which covers the strings whose code units are
  below 256. All the literals of the component are such strings. The backslash cannot be written inside a
  string literal of the logic, so it appears as \<open>CHR 0x5C\<close>: the JavaScript
  literal \<^verbatim>\<open>'\\begin{tikzpicture}'\<close> is
  \<open>CHR 0x5C # ''begin{tikzpicture}''\<close>.
\<close>

text \<open>
  \<^verbatim>\<open>s.includes(t)\<close>: whether \<open>t\<close> occurs in \<open>s\<close> at some position, compared
  code unit by code unit. The empty string occurs in every string.
\<close>

primrec String_includes :: "string \<Rightarrow> string \<Rightarrow> bool" where
  "String_includes [] t = (t = [])"
| "String_includes (c # cs) t = (prefix t (c # cs) \<or> String_includes cs t)"

text \<open>\<^verbatim>\<open>xs.join(sep)\<close> on an array of strings.\<close>

fun Array_join :: "string list \<Rightarrow> string \<Rightarrow> string" where
  "Array_join [] sep = []"
| "Array_join [x] sep = x"
| "Array_join (x # y # ys) sep = x @ sep @ Array_join (y # ys) sep"

section \<open>The default templates\<close>

text \<open>
  The three template literals of \<^verbatim>\<open>defaultTemplates\<close>, with their line breaks and
  indentation as the source file has them.
\<close>

definition rectangle_template :: string where
  "rectangle_template =
     ''\<newline>'' @
     ''    '' @ CHR 0x5C # ''documentclass{standalone}\<newline>'' @
     ''    '' @ CHR 0x5C # ''usepackage{tikz}\<newline>'' @
     ''    '' @ CHR 0x5C # ''begin{document}\<newline>'' @
     ''    '' @ CHR 0x5C # ''begin{tikzpicture}\<newline>'' @
     ''      '' @ CHR 0x5C # ''draw[fill=blue!20] (0,0) rectangle (4,2);\<newline>'' @
     ''      '' @ CHR 0x5C # ''draw[fill=red] (2,1) circle (0.5cm);\<newline>'' @
     ''      '' @ CHR 0x5C # ''node at (2, 1) {Circle};\<newline>'' @
     ''    '' @ CHR 0x5C # ''end{tikzpicture}\<newline>'' @
     ''    '' @ CHR 0x5C # ''end{document}\<newline>'' @
     ''  ''"

definition bar_template :: string where
  "bar_template =
     ''\<newline>'' @
     ''    '' @ CHR 0x5C # ''documentclass{standalone}\<newline>'' @
     ''    '' @ CHR 0x5C # ''usepackage{tikz}\<newline>'' @
     ''    '' @ CHR 0x5C # ''begin{document}\<newline>'' @
     ''    '' @ CHR 0x5C # ''begin{tikzpicture}\<newline>'' @
     ''      '' @ CHR 0x5C # ''draw[->] (0,0) -- (6,0) node[right] {X};\<newline>'' @
     ''      '' @ CHR 0x5C # ''draw[->] (0,0) -- (0,4) node[above] {Y};\<newline>'' @
     ''      '' @ CHR 0x5C # ''foreach '' @ CHR 0x5C # ''x/'' @ CHR 0x5C # ''y in {1/2, 2/3, 3/1.5, 4/3.5}\<newline>'' @
     ''        '' @ CHR 0x5C # ''draw[fill=blue!50] ('' @ CHR 0x5C # ''x-0.2,0) bar ('' @ CHR 0x5C # ''x+0.2,'' @ CHR 0x5C # ''y);\<newline>'' @
     ''    '' @ CHR 0x5C # ''end{tikzpicture}\<newline>'' @
     ''    '' @ CHR 0x5C # ''end{document}\<newline>'' @
     ''  ''"

definition chart_template :: string where
  "chart_template =
     ''\<newline>'' @
     ''    '' @ CHR 0x5C # ''documentclass{standalone}\<newline>'' @
     ''    '' @ CHR 0x5C # ''usepackage{tikz}\<newline>'' @
     ''    '' @ CHR 0x5C # ''usetikzlibrary{mindmap,trees}\<newline>'' @
     ''    '' @ CHR 0x5C # ''begin{document}\<newline>'' @
     ''    '' @ CHR 0x5C # ''begin{tikzpicture}\<newline>'' @
     ''      '' @ CHR 0x5C # ''node[concept] {Company}\<newline>'' @
     ''        child[concept] {node {HR}}\<newline>'' @
     ''        child[concept] {node {Tech}}\<newline>'' @
     ''        child[concept] {node {Marketing}};\<newline>'' @
     ''    '' @ CHR 0x5C # ''end{tikzpicture}\<newline>'' @
     ''    '' @ CHR 0x5C # ''end{document}\<newline>'' @
     ''  ''"

text \<open>
  An object with string values is the list of its own properties in enumeration order.
\<close>

type_synonym templates = "(string \<times> string) list"

definition defaultTemplates :: templates where
  "defaultTemplates =
     [(''Rectangle with Circle'', rectangle_template),
      (''Bar Graph'', bar_template),
      (''Organizational Chart'', chart_template)]"

section \<open>The component's state\<close>

text \<open>
  The four \<^verbatim>\<open>useState\<close> cells of \<^verbatim>\<open>TikZEditor\<close>. \<^verbatim>\<open>renderedSVG\<close> and
  \<^verbatim>\<open>error\<close> hold \<^verbatim>\<open>null\<close> (\<open>None\<close>) or a string.
\<close>

record editor =
  tikzCode :: string
  templates :: templates
  renderedSVG :: "string option"
  error :: "string option"

definition initial_editor :: editor where
  "initial_editor = \<lparr>tikzCode = [], templates = [], renderedSVG = None, error = None\<rparr>"

section \<open>The syntax checker\<close>

definition validateTikZSyntax :: "string \<Rightarrow> string list" where
  "validateTikZSyntax code =
     (let errors = [];
          errors = (if \<not> String_includes code (CHR 0x5C # ''begin{tikzpicture}'')
                    then errors @ [''Missing '' @ CHR 0x5C # ''begin{tikzpicture}'']
                    else errors);
          errors = (if \<not> String_includes code (CHR 0x5C # ''end{tikzpicture}'')
                    then errors @ [''Missing '' @ CHR 0x5C # ''end{tikzpicture}'']
                    else errors)
      in errors)"

section \<open>The simulated renderer\<close>

text \<open>The three fixed fragments of \<^verbatim>\<open>renderTikZ\<close>.\<close>

definition rectangle_svg :: string where
  "rectangle_svg =
     ''<svg xmlns=\"http://www.w3.org/2000/svg\" width=\"400\" height=\"200\">\<newline>'' @
     ''          <rect x=\"50\" y=\"50\" width=\"300\" height=\"100\" fill=\"lightblue\" />\<newline>'' @
     ''          <circle cx=\"200\" cy=\"100\" r=\"50\" fill=\"red\" />\<newline>'' @
     ''          <text x=\"200\" y=\"105\" font-size=\"20\" text-anchor=\"middle\" fill=\"black\">Circle</text>\<newline>'' @
     ''        </svg>''"

definition bar_svg :: string where
  "bar_svg =
     ''<svg xmlns=\"http://www.w3.org/2000/svg\" width=\"400\" height=\"200\">\<newline>'' @
     ''          <line x1=\"50\" y1=\"150\" x2=\"350\" y2=\"150\" stroke=\"black\" />\<newline>'' @
     ''          <line x1=\"50\" y1=\"150\" x2=\"50\" y2=\"50\" stroke=\"black\" />\<newline>'' @
     ''          <rect x=\"70\" y=\"100\" width=\"30\" height=\"50\" fill=\"blue\" />\<newline>'' @
     ''          <rect x=\"120\" y=\"80\" width=\"30\" height=\"70\" fill=\"blue\" />\<newline>'' @
     ''          <rect x=\"170\" y=\"110\" width=\"30\" height=\"40\" fill=\"blue\" />\<newline>'' @
     ''          <text x=\"200\" y=\"170\" font-size=\"12\" text-anchor=\"middle\">Bar Graph</text>\<newline>'' @
     ''        </svg>''"

definition mindmap_svg :: string where
  "mindmap_svg =
     ''<svg xmlns=\"http://www.w3.org/2000/svg\" width=\"400\" height=\"200\">\<newline>'' @
     ''          <circle cx=\"200\" cy=\"100\" r=\"30\" fill=\"green\" />\<newline>'' @
     ''          <text x=\"200\" y=\"105\" font-size=\"12\" text-anchor=\"middle\" fill=\"white\">Company</text>\<newline>'' @
     ''          <line x1=\"200\" y1=\"100\" x2=\"150\" y2=\"50\" stroke=\"black\" />\<newline>'' @
     ''          <line x1=\"200\" y1=\"100\" x2=\"250\" y2=\"50\" stroke=\"black\" />\<newline>'' @
     ''          <line x1=\"200\" y1=\"100\" x2=\"200\" y2=\"150\" stroke=\"black\" />\<newline>'' @
     ''          <text x=\"150\" y=\"45\" font-size=\"10\" text-anchor=\"middle\">HR</text>\<newline>'' @
     ''          <text x=\"250\" y=\"45\" font-size=\"10\" text-anchor=\"middle\">Tech</text>\<newline>'' @
     ''          <text x=\"200\" y=\"165\" font-size=\"10\" text-anchor=\"middle\">Marketing</text>\<newline>'' @
     ''        </svg>''"

definition renderTikZ :: "editor \<Rightarrow> editor" where
  "renderTikZ st =
     (let errors = validateTikZSyntax (tikzCode st) in
      if length errors > 0
      then st\<lparr>error := Some (Array_join errors '', ''), renderedSVG := None\<rparr>
      else
        (let st = st\<lparr>error := None\<rparr> in
         if String_includes (tikzCode st) ''rectangle''
         then st\<lparr>renderedSVG := Some rectangle_svg\<rparr>
         else if String_includes (tikzCode st) ''bar''
         then st\<lparr>renderedSVG := Some bar_svg\<rparr>
         else if String_includes (tikzCode st) ''mindmap''
         then st\<lparr>renderedSVG := Some mindmap_svg\<rparr>
         else st\<lparr>renderedSVG := Some (''<pre>'' @ tikzCode st @ ''</pre>'')\<rparr>))"

text \<open>
  The preview synthesizer as the specification words it (section 4.3): the first rule
  whose literal substring the source contains decides, in the order rectangle, bar,
  mindmap; otherwise the source is echoed as preformatted text. The fragments are those
  of \<^verbatim>\<open>renderTikZ\<close>.
\<close>

definition spec_synthesize :: "string \<Rightarrow> string" where
  "spec_synthesize source =
     (if sublist ''rectangle'' source then rectangle_svg
      else if sublist ''bar'' source then bar_svg
      else if sublist ''mindmap'' source then mindmap_svg
      else ''<pre>'' @ source @ ''</pre>'')"

section \<open>JSON.parse\<close>

text \<open>
  \<^verbatim>\<open>JSON.parse\<close> is a function of the platform; it is modelled by a lexer and a
  pushdown automaton for the JSON grammar: the white space is space, tab, line feed and
  carriage return; the literals are \<^verbatim>\<open>true\<close>, \<^verbatim>\<open>false\<close> and \<^verbatim>\<open>null\<close>; a
  number has no leading zero, and digits after a point and after an exponent mark; a
  string has no raw control character and the escapes
  \<^verbatim>\<open>\" \\ \/ \b \f \n \r \t \uXXXX\<close>.

  A parsed value: a string is its list of code units, which an escape \<^verbatim>\<open>\uXXXX\<close>
  can take beyond the characters of \<open>string\<close>; a number is kept as its lexeme; an
  object is the list of its members as the text has them.
\<close>

datatype json =
    JNull
  | JBool bool
  | JNumber string
  | JString "nat list"
  | JArray "json list"
  | JObject "(nat list \<times> json) list"

datatype token =
    LBrace | RBrace | LBracket | RBracket | Colon | Comma
  | TString "nat list" | TNumber string | TTrue | TFalse | TNull

definition is_digit :: "char \<Rightarrow> bool" where
  "is_digit c = (CHR ''0'' \<le> c \<and> c \<le> CHR ''9'')"

definition hex_value :: "char \<Rightarrow> nat option" where
  "hex_value c =
     (if CHR ''0'' \<le> c \<and> c \<le> CHR ''9'' then Some (of_char c - 48)
      else if CHR ''a'' \<le> c \<and> c \<le> CHR ''f'' then Some (of_char c - 87)
      else if CHR ''A'' \<le> c \<and> c \<le> CHR ''F'' then Some (of_char c - 55)
      else None)"

fun hex4 :: "string \<Rightarrow> nat option" where
  "hex4 [a, b, c, d] =
     (case (hex_value a, hex_value b, hex_value c, hex_value d) of
        (Some x, Some y, Some z, Some w) \<Rightarrow> Some (((x * 16 + y) * 16 + z) * 16 + w)
      | _ \<Rightarrow> None)"
| "hex4 _ = None"

definition escape_value :: "char \<Rightarrow> nat option" where
  "escape_value e =
     (if e = CHR 0x22 then Some 0x22
      else if e = CHR 0x5C then Some 0x5C
      else if e = CHR ''/'' then Some 0x2F
      else if e = CHR ''b'' then Some 0x08
      else if e = CHR ''f'' then Some 0x0C
      else if e = CHR ''n'' then Some 0x0A
      else if e = CHR ''r'' then Some 0x0D
      else if e = CHR ''t'' then Some 0x09
      else None)"

fun lex_string :: "string \<Rightarrow> (nat list \<times> string) option" where
  "lex_string [] = None"
| "lex_string (c # cs) =
     (if c = CHR 0x22 then Some ([], cs)
      else if c = CHR 0x5C then
        (case cs of
           [] \<Rightarrow> None
         | e # es \<Rightarrow>
             if e = CHR ''u'' then
               (case hex4 (take 4 es) of
                  None \<Rightarrow> None
                | Some n \<Rightarrow> map_option (\<lambda>(s, r). (n # s, r)) (lex_string (drop 4 es)))
             else
               (case escape_value e of
                  None \<Rightarrow> None
                | Some n \<Rightarrow> map_option (\<lambda>(s, r). (n # s, r)) (lex_string es)))
      else if (of_char c :: nat) < 0x20 then None
      else map_option (\<lambda>(s, r). (of_char c # s, r)) (lex_string cs))"


lemma lex_string_rest: "lex_string s = Some (u, r) \<Longrightarrow> length r < length s"
proof (induction s arbitrary: u r rule: lex_string.induct)
  case 1
  then show ?case by simp
next
  case (2 c cs)
  then show ?case
    by (fastforce split: if_splits list.splits option.splits)
qed

text \<open>A number: the lexeme read and the rest of the text.\<close>

definition lex_fraction :: "string \<Rightarrow> (string \<times> string) option" where
  "lex_fraction s =
     (case s of
        [] \<Rightarrow> Some ([], s)
      | c # cs \<Rightarrow>
          if c = CHR ''.'' then
            (let ds = takeWhile is_digit cs in
             if ds = [] then None else Some (c # ds, dropWhile is_digit cs))
          else Some ([], s))"

definition lex_exponent :: "string \<Rightarrow> (string \<times> string) option" where
  "lex_exponent s =
     (case s of
        [] \<Rightarrow> Some ([], s)
      | c # cs \<Rightarrow>
          if c = CHR ''e'' \<or> c = CHR ''E'' then
            (let (sign, r) =
                   (case cs of
                      [] \<Rightarrow> ([], cs)
                    | d # ds \<Rightarrow> if d = CHR ''+'' \<or> d = CHR ''-'' then ([d], ds) else ([], cs));
                 ds = takeWhile is_digit r
             in if ds = [] then None else Some (c # sign @ ds, dropWhile is_digit r))
          else Some ([], s))"

definition lex_number :: "string \<Rightarrow> (string \<times> string) option" where
  "lex_number s =
     (let (sign, s1) =
            (case s of
               [] \<Rightarrow> ([], s)
             | c # cs \<Rightarrow> if c = CHR ''-'' then ([c], cs) else ([], s));
          ds = takeWhile is_digit s1
      in if ds = [] \<or> (hd ds = CHR ''0'' \<and> length ds > 1) then None
         else
           (case lex_fraction (dropWhile is_digit s1) of
              None \<Rightarrow> None
            | Some (frac, s2) \<Rightarrow>
                (case lex_exponent s2 of
                   None \<Rightarrow> None
                 | Some (ex, s3) \<Rightarrow> Some (sign @ ds @ frac @ ex, s3))))"

lemma length_dropWhile_less: "takeWhile P s \<noteq> [] \<Longrightarrow> length (dropWhile P s) < length s"
  by (induction s) (auto simp: less_Suc_eq_le length_dropWhile_le split: if_splits)

lemma lex_fraction_rest: "lex_fraction s = Some (f, r) \<Longrightarrow> length r \<le> length s"
  by (auto simp: lex_fraction_def Let_def le_Suc_eq length_dropWhile_le split: list.splits if_splits)

lemma lex_exponent_rest: "lex_exponent s = Some (f, r) \<Longrightarrow> length r \<le> length s"
  by (auto simp: lex_exponent_def Let_def split: list.splits if_splits
      intro: le_trans [OF length_dropWhile_le])

lemma lex_number_rest:
  assumes "lex_number s = Some (n, r)"
  shows "length r < length s"
proof -
  obtain sign s1 where s1: "(case s of [] \<Rightarrow> ([], s)
      | c # cs \<Rightarrow> if c = CHR ''-'' then ([c], cs) else ([], s)) = (sign, s1)"
    by fastforce
  then have le: "length s1 \<le> length s"
    by (auto split: list.splits if_splits)
  from assms s1 obtain frac s2 ex where
    ds: "takeWhile is_digit s1 \<noteq> []" and
    fr: "lex_fraction (dropWhile is_digit s1) = Some (frac, s2)" and
    ex: "lex_exponent s2 = Some (ex, r)"
    by (auto simp: lex_number_def Let_def split: if_splits option.splits)
  from length_dropWhile_less [OF ds] lex_fraction_rest [OF fr] lex_exponent_rest [OF ex] le
  show ?thesis by simp
qed

text \<open>The tokens of a JSON text; \<open>None\<close> when the text has no tokenisation.\<close>

function lex :: "string \<Rightarrow> token list option" where
  "lex [] = Some []"
| "lex (c # cs) =
     (if c = CHR '' '' \<or> c = CHR 0x09 \<or> c = CHR 0x0A \<or> c = CHR 0x0D then lex cs
      else if c = CHR ''{'' then map_option ((#) LBrace) (lex cs)
      else if c = CHR ''}'' then map_option ((#) RBrace) (lex cs)
      else if c = CHR ''['' then map_option ((#) LBracket) (lex cs)
      else if c = CHR '']'' then map_option ((#) RBracket) (lex cs)
      else if c = CHR '':'' then map_option ((#) Colon) (lex cs)
      else if c = CHR '','' then map_option ((#) Comma) (lex cs)
      else if c = CHR 0x22 then
        (case lex_string cs of
           None \<Rightarrow> None
         | Some (s, rest) \<Rightarrow> map_option ((#) (TString s)) (lex rest))
      else if c = CHR ''-'' \<or> is_digit c then
        (case lex_number (c # cs) of
           None \<Rightarrow> None
         | Some (n, rest) \<Rightarrow> map_option ((#) (TNumber n)) (lex rest))
      else if prefix ''true'' (c # cs) then map_option ((#) TTrue) (lex (drop 3 cs))
      else if prefix ''false'' (c # cs) then map_option ((#) TFalse) (lex (drop 4 cs))
      else if prefix ''null'' (c # cs) then map_option ((#) TNull) (lex (drop 3 cs))
      else None)"
  by pat_completeness auto
termination
proof (relation "measure length")
  fix c cs x2 x y
  assume "lex_string cs = Some x2" "(x, y) = x2"
  then show "(y, c # cs) \<in> measure length"
    using lex_string_rest [of cs x y] by simp
next
  fix c cs x2 x y
  assume "lex_number (c # cs) = Some x2" "(x, y) = x2"
  then show "(y, c # cs) \<in> measure length"
    using lex_number_rest [of "c # cs" x y] by simp
qed auto

text \<open>
  The parser is a pushdown automaton over the tokens. A frame of the stack is a
  container that is still open: an array with the elements read so far, an object with
  the members read so far, or an object whose next member has its key and colon read and
  waits for its value. Elements and members are kept in reverse.
\<close>

datatype frame =
    InArray "json list"
  | InObject "(nat list \<times> json) list"
  | InMember "(nat list \<times> json) list" "nat list"

datatype mode =
    Value
  | FirstValue
  | FirstKey
  | Key
  | AfterKey
  | AfterValue
  | Finished json

fun complete :: "json \<Rightarrow> frame list \<Rightarrow> (mode \<times> frame list) option" where
  "complete v [] = Some (Finished v, [])"
| "complete v (InArray xs # st) = Some (AfterValue, InArray (v # xs) # st)"
| "complete v (InMember ms k # st) = Some (AfterValue, InObject ((k, v) # ms) # st)"
| "complete v (InObject ms # st) = None"

fun scalar :: "token \<Rightarrow> json option" where
  "scalar (TString s) = Some (JString s)"
| "scalar (TNumber n) = Some (JNumber n)"
| "scalar TTrue = Some (JBool True)"
| "scalar TFalse = Some (JBool False)"
| "scalar TNull = Some JNull"
| "scalar _ = None"

fun start_value :: "token \<Rightarrow> frame list \<Rightarrow> (mode \<times> frame list) option" where
  "start_value LBracket st = Some (FirstValue, InArray [] # st)"
| "start_value LBrace st = Some (FirstKey, InObject [] # st)"
| "start_value t st = (case scalar t of None \<Rightarrow> None | Some v \<Rightarrow> complete v st)"

fun start_member :: "token \<Rightarrow> frame list \<Rightarrow> (mode \<times> frame list) option" where
  "start_member (TString k) (InObject ms # st) = Some (AfterKey, InMember ms k # st)"
| "start_member _ _ = None"

fun step_token :: "token \<Rightarrow> mode \<times> frame list \<Rightarrow> (mode \<times> frame list) option" where
  "step_token t (Value, st) = start_value t st"
| "step_token t (FirstValue, st) =
     (case (t, st) of
        (RBracket, InArray [] # st') \<Rightarrow> complete (JArray []) st'
      | _ \<Rightarrow> start_value t st)"
| "step_token t (FirstKey, st) =
     (case (t, st) of
        (RBrace, InObject [] # st') \<Rightarrow> complete (JObject []) st'
      | _ \<Rightarrow> start_member t st)"
| "step_token t (Key, st) = start_member t st"
| "step_token t (AfterKey, st) = (case t of Colon \<Rightarrow> Some (Value, st) | _ \<Rightarrow> None)"
| "step_token t (AfterValue, st) =
     (case (t, st) of
        (Comma, InArray xs # st') \<Rightarrow> Some (Value, st)
      | (Comma, InObject ms # st') \<Rightarrow> Some (Key, st)
      | (RBracket, InArray xs # st') \<Rightarrow> complete (JArray (rev xs)) st'
      | (RBrace, InObject ms # st') \<Rightarrow> complete (JObject (rev ms)) st'
      | _ \<Rightarrow> None)"
| "step_token t (Finished v, st) = None"

fun run_tokens :: "token list \<Rightarrow> mode \<times> frame list \<Rightarrow> (mode \<times> frame list) option" where
  "run_tokens [] s = Some s"
| "run_tokens (t # ts) s =
     (case step_token t s of None \<Rightarrow> None | Some s' \<Rightarrow> run_tokens ts s')"

text \<open>The automaton run over the tokens of a text, from a given state.\<close>

definition parse_from :: "string \<Rightarrow> mode \<times> frame list \<Rightarrow> (mode \<times> frame list) option" where
  "parse_from text s = (case lex text of None \<Rightarrow> None | Some ts \<Rightarrow> run_tokens ts s)"

text \<open>
  \<^verbatim>\<open>JSON.parse(text)\<close>: the value of the text, or \<open>None\<close> where \<^verbatim>\<open>JSON.parse\<close>
  throws a \<^verbatim>\<open>SyntaxError\<close>: when the text has no tokenisation, or the automaton
  rejects a token or does not end with a whole value.
\<close>

definition JSON_parse :: "string \<Rightarrow> json option" where
  "JSON_parse text =
     (case parse_from text (Value, []) of
        Some (Finished v, []) \<Rightarrow> Some v
      | _ \<Rightarrow> None)"

section \<open>Objects\<close>

text \<open>
  The own properties of an ordinary object are enumerated with the array indices first,
  in ascending order, and the other keys after them in the order of their creation. A
  key is an array index when it is the decimal form of a number below \<open>2\<^sup>3\<^sup>2 - 1\<close>,
  as \<^verbatim>\<open>ToString\<close> writes that number.
\<close>

definition decimal :: "string \<Rightarrow> int" where
  "decimal k = foldl (\<lambda>n c. 10 * n + (of_char c - 48)) 0 k"

function to_decimal :: "int \<Rightarrow> string" where
  "to_decimal n =
     (if n < 10 then [char_of (48 + n)]
      else to_decimal (n div 10) @ [char_of (48 + n mod 10)])"
  by pat_completeness auto
termination
  by (relation "measure nat") auto

declare to_decimal.simps [simp del]

definition array_index :: "string \<Rightarrow> int option" where
  "array_index k =
     (if k \<noteq> [] \<and> list_all is_digit k \<and> to_decimal (decimal k) = k \<and> decimal k < 2 ^ 32 - 1
      then Some (decimal k) else None)"

fun insert_index :: "int \<Rightarrow> string \<Rightarrow> 'v \<Rightarrow> (string \<times> 'v) list \<Rightarrow> (string \<times> 'v) list" where
  "insert_index i k v [] = [(k, v)]"
| "insert_index i k v ((k', v') # ps) =
     (case array_index k' of
        None \<Rightarrow> (k, v) # (k', v') # ps
      | Some j \<Rightarrow> if j < i then (k', v') # insert_index i k v ps else (k, v) # (k', v') # ps)"

text \<open>
  The lists that are the properties of an object: no key twice, the array indices
  first and ascending. Of two neighbours, the second is an array index only after a
  smaller one.
\<close>

fun ordered_keys :: "string list \<Rightarrow> bool" where
  "ordered_keys (k # k' # ks) =
     ((case array_index k' of
         None \<Rightarrow> True
       | Some j \<Rightarrow> (case array_index k of None \<Rightarrow> False | Some i \<Rightarrow> i < j))
      \<and> ordered_keys (k' # ks))"
| "ordered_keys _ = True"

definition is_object :: "(string \<times> 'v) list \<Rightarrow> bool" where
  "is_object ps \<longleftrightarrow> distinct (map fst ps) \<and> ordered_keys (map fst ps)"

text \<open>
  \<^verbatim>\<open>CreateDataProperty\<close>: an existing property keeps its place and takes the new
  value; a new one is placed by the enumeration order.
\<close>

definition define_property :: "string \<Rightarrow> 'v \<Rightarrow> (string \<times> 'v) list \<Rightarrow> (string \<times> 'v) list" where
  "define_property k v ps =
     (if k \<in> fst ` set ps then map (\<lambda>(k', v'). if k' = k then (k', v) else (k', v')) ps
      else case array_index k of
             None \<Rightarrow> ps @ [(k, v)]
           | Some i \<Rightarrow> insert_index i k v ps)"

text \<open>
  The spread \<^verbatim>\<open>{ ...obj }\<close>: a new object that receives the own properties of
  \<open>obj\<close> in their enumeration order.
\<close>

definition spread :: "(string \<times> 'v) list \<Rightarrow> (string \<times> 'v) list" where
  "spread ps = fold (\<lambda>(k, v). define_property k v) ps []"

definition Object_keys :: "(string \<times> 'v) list \<Rightarrow> string list" where
  "Object_keys ps = map fst ps"

text \<open>
  \<^verbatim>\<open>obj[k]\<close> on the own properties: \<open>None\<close> is \<^verbatim>\<open>undefined\<close>. The
  properties that an object inherits from \<^verbatim>\<open>Object.prototype\<close> are not modelled.
\<close>

definition get_property :: "(string \<times> 'v) list \<Rightarrow> string \<Rightarrow> 'v option" where
  "get_property ps k = map_of ps k"

section \<open>JSON.stringify\<close>

text \<open>
  \<^verbatim>\<open>JSON.stringify\<close> on an object with string values, without indentation: the
  members in enumeration order, as \<^verbatim>\<open>"key":"value"\<close> with commas between them.
  A quoted string escapes the quotation mark, the backslash and the control characters,
  the latter as \<^verbatim>\<open>\b \t \n \f \r\<close> or as \<^verbatim>\<open>\u00XX\<close> in lower case.
\<close>

definition hex_digit :: "nat \<Rightarrow> char" where
  "hex_digit n = (if n < 10 then char_of (48 + n) else char_of (87 + n))"

definition quote_char :: "char \<Rightarrow> string" where
  "quote_char c =
     (if c = CHR 0x08 then CHR 0x5C # ''b''
      else if c = CHR 0x09 then CHR 0x5C # ''t''
      else if c = CHR 0x0A then CHR 0x5C # ''n''
      else if c = CHR 0x0C then CHR 0x5C # ''f''
      else if c = CHR 0x0D then CHR 0x5C # ''r''
      else if c = CHR 0x22 then [CHR 0x5C, CHR 0x22]
      else if c = CHR 0x5C then [CHR 0x5C, CHR 0x5C]
      else if (of_char c :: nat) < 0x20
      then CHR 0x5C # ''u00'' @ [hex_digit (of_char c div 16), hex_digit (of_char c mod 16)]
      else [c])"

definition JSON_quote :: "string \<Rightarrow> string" where
  "JSON_quote s = CHR 0x22 # concat (map quote_char s) @ [CHR 0x22]"

definition JSON_stringify :: "templates \<Rightarrow> string" where
  "JSON_stringify t =
     ''{'' @ Array_join (map (\<lambda>(k, v). JSON_quote k @ '':'' @ JSON_quote v) t) '','' @ ''}''"

section \<open>From a parsed value to the templates\<close>

text \<open>
  The object that \<^verbatim>\<open>JSON.parse\<close> builds from the members of the text, when every
  value is a string and every code unit is a character: each member in turn defines a
  property, so a key that comes twice keeps its first place and its last value.
\<close>

definition latin1 :: "nat list \<Rightarrow> string option" where
  "latin1 us = (if list_all (\<lambda>u. u < 256) us then Some (map char_of us) else None)"

fun string_member :: "nat list \<times> json \<Rightarrow> (string \<times> string) option" where
  "string_member (k, JString v) =
     (case (latin1 k, latin1 v) of (Some k', Some v') \<Rightarrow> Some (k', v') | _ \<Rightarrow> None)"
| "string_member _ = None"

fun as_templates :: "json \<Rightarrow> templates option" where
  "as_templates (JObject ms) = map_option spread (those (map string_member ms))"
| "as_templates _ = None"

section \<open>The persistent slot and the two effects\<close>

text \<open>
  \<^verbatim>\<open>localStorage\<close> maps keys to strings; \<^verbatim>\<open>getItem\<close> answers \<^verbatim>\<open>null\<close>
  (\<open>None\<close>) for a key that is not there.
\<close>

type_synonym storage = "string \<rightharpoonup> string"

definition getItem :: "storage \<Rightarrow> string \<Rightarrow> string option" where
  "getItem ls k = ls k"

definition setItem :: "storage \<Rightarrow> string \<Rightarrow> string \<Rightarrow> storage" where
  "setItem ls k v = ls(k \<mapsto> v)"

datatype exn = SyntaxError

text \<open>
  What the first effect hands to \<^verbatim>\<open>setTemplates\<close>: an object with string values
  (a mapping from names to sources), or another value of \<^verbatim>\<open>JSON.parse\<close>: a value
  that is no object, an object with a value that is no string, or one with a code unit
  beyond the characters of \<open>string\<close>. The source does not tell the two cases apart;
  the component is modelled on the first one, and the second one ends the model's run.
\<close>

datatype loaded = Templates templates | Other json

text \<open>
  The first effect. \<^verbatim>\<open>if (storedTemplates)\<close> takes a string that is not empty; the
  \<^verbatim>\<open>SyntaxError\<close> of \<^verbatim>\<open>JSON.parse\<close> is not caught.
\<close>

definition load_effect :: "storage \<Rightarrow> exn + loaded" where
  "load_effect ls =
     (let storedTemplates = getItem ls ''tikzTemplates'' in
      case storedTemplates of
        None \<Rightarrow> Inr (Templates defaultTemplates)
      | Some s \<Rightarrow>
          if s \<noteq> [] then
            (case JSON_parse s of
               None \<Rightarrow> Inl SyntaxError
             | Some v \<Rightarrow>
                 (case as_templates v of
                    None \<Rightarrow> Inr (Other v)
                  | Some t \<Rightarrow> Inr (Templates t)))
          else Inr (Templates defaultTemplates))"

text \<open>The second effect, run after each render in which \<^verbatim>\<open>templates\<close> has changed.\<close>

definition persist_effect :: "templates \<Rightarrow> storage \<Rightarrow> storage" where
  "persist_effect t ls =
     (if length (Object_keys t) > 0
      then setItem ls ''tikzTemplates'' (JSON_stringify t)
      else ls)"

text \<open>
  Mounting the component. The first render has the initial state; after it both effects
  run, the second one on the \<^verbatim>\<open>templates\<close> of that render (the empty object). The
  state set by the first effect gives a second render, after which the second effect
  runs again, since \<^verbatim>\<open>templates\<close> has changed.
\<close>

datatype mounted = Threw exn | Untyped json | Mounted editor storage

definition mount :: "storage \<Rightarrow> mounted" where
  "mount ls =
     (case load_effect ls of
        Inl e \<Rightarrow> Threw e
      | Inr (Other v) \<Rightarrow> Untyped v
      | Inr (Templates t) \<Rightarrow>
          (let ls = persist_effect (templates initial_editor) ls;
               st = initial_editor\<lparr>templates := t\<rparr>
           in Mounted st (persist_effect (templates st) ls)))"

section \<open>The handlers\<close>

text \<open>
  \<^verbatim>\<open>templates[selectedTemplate] || ''\<close>: an empty string is falsy. The handler is
  called with the value of an option of the \<^verbatim>\<open>select\<close> element, and the options are
  the keys of \<^verbatim>\<open>templates\<close>.
\<close>

definition handleTemplateChange :: "string \<Rightarrow> editor \<Rightarrow> editor" where
  "handleTemplateChange selectedTemplate st =
     (let code = (case get_property (templates st) selectedTemplate of
                    None \<Rightarrow> []
                  | Some v \<Rightarrow> if v \<noteq> [] then v else [])
      in st\<lparr>tikzCode := code\<rparr>)"

definition handleTemplateModification :: "string \<Rightarrow> string \<Rightarrow> editor \<Rightarrow> editor" where
  "handleTemplateModification name newCode st =
     (let updatedTemplates = define_property name newCode (spread (templates st))
      in st\<lparr>templates := updatedTemplates\<rparr>)"

definition handleCodeChange :: "string \<Rightarrow> editor \<Rightarrow> editor" where
  "handleCodeChange v st = st\<lparr>tikzCode := v\<rparr>"

definition downloadCode :: "editor \<Rightarrow> string \<times> string" where
  "downloadCode st = (tikzCode st, ''diagram.tex'')"

text \<open>
  The user's actions on the mounted component, each with the effects that follow its
  render: only \<^verbatim>\<open>handleTemplateModification\<close> changes \<^verbatim>\<open>templates\<close>, so only
  it is followed by the second effect.
\<close>

datatype action =
    SelectTemplate string
  | EditSource string
  | Render
  | SaveTemplate string string

fun step :: "action \<Rightarrow> editor \<times> storage \<Rightarrow> editor \<times> storage" where
  "step (SelectTemplate name) (st, ls) = (handleTemplateChange name st, ls)"
| "step (EditSource v) (st, ls) = (handleCodeChange v st, ls)"
| "step Render (st, ls) = (renderTikZ st, ls)"
| "step (SaveTemplate name newCode) (st, ls) =
     (let st = handleTemplateModification name newCode st
      in (st, persist_effect (templates st) ls))"

text \<open>The states of the component: from a mount, by the user's actions.\<close>

inductive reachable :: "editor \<times> storage \<Rightarrow> bool" where
  mounted: "mount ls = Mounted st ls' \<Longrightarrow> reachable (st, ls')"
| stepped: "reachable w \<Longrightarrow> reachable (step a w)"


section \<open>Substrings\<close>

text \<open>\<^verbatim>\<open>includes\<close> is the substring relation.\<close>

lemma String_includes_sublist: "String_includes s t = sublist t s"
  by (induction s) (auto simp: sublist_Cons_right)

lemma String_includes_iff: "String_includes s t \<longleftrightarrow> (\<exists>p q. s = p @ t @ q)"
  by (simp add: String_includes_sublist sublist_def)

section \<open>The syntax checker is a presence check\<close>

lemma validate_cases:
  "validateTikZSyntax s =
     (if String_includes s (CHR 0x5C # ''begin{tikzpicture}'') then [] else [''Missing '' @ CHR 0x5C # ''begin{tikzpicture}'']) @
     (if String_includes s (CHR 0x5C # ''end{tikzpicture}'') then [] else [''Missing '' @ CHR 0x5C # ''end{tikzpicture}''])"
  by (simp add: validateTikZSyntax_def)

text \<open>
  C3. The checker is a total function of the source. Its result has at most two
  messages; it is empty exactly when the source contains both the opening marker
  \<^verbatim>\<open>\begin{tikzpicture}\<close> and the closing marker \<^verbatim>\<open>\end{tikzpicture}\<close>; and a
  source that lacks only the opening marker gets the one message about the opening
  marker.
\<close>

theorem validateTikZSyntax_sound:
  "length (validateTikZSyntax s) \<le> 2
   \<and> (validateTikZSyntax s = [] \<longleftrightarrow>
        (\<exists>p q. s = p @ (CHR 0x5C # ''begin{tikzpicture}'') @ q)
        \<and> (\<exists>p q. s = p @ (CHR 0x5C # ''end{tikzpicture}'') @ q))
   \<and> (\<not> (\<exists>p q. s = p @ (CHR 0x5C # ''begin{tikzpicture}'') @ q)
        \<and> (\<exists>p q. s = p @ (CHR 0x5C # ''end{tikzpicture}'') @ q)
        \<longrightarrow> validateTikZSyntax s = [''Missing '' @ CHR 0x5C # ''begin{tikzpicture}''])"
  unfolding String_includes_iff [symmetric] by (simp add: validate_cases)

text \<open>A source with the closing marker only.\<close>

theorem validateTikZSyntax_sound_witness:
  "validateTikZSyntax (''x '' @ CHR 0x5C # ''end{tikzpicture}'')
     = [''Missing '' @ CHR 0x5C # ''begin{tikzpicture}'']
   \<and> length (validateTikZSyntax (''x '' @ CHR 0x5C # ''end{tikzpicture}'')) \<le> 2"
proof -
  have no_begin: "\<not> (\<exists>p q. ''x '' @ CHR 0x5C # ''end{tikzpicture}'' = p @ (CHR 0x5C # ''begin{tikzpicture}'') @ q)"
    unfolding String_includes_iff [symmetric] by simp
  have has_end: "\<exists>p q. ''x '' @ CHR 0x5C # ''end{tikzpicture}'' = p @ (CHR 0x5C # ''end{tikzpicture}'') @ q"
    unfolding String_includes_iff [symmetric] by simp
  from validateTikZSyntax_sound [of "''x '' @ CHR 0x5C # ''end{tikzpicture}''"] no_begin has_end
  show ?thesis by blast
qed


section \<open>The renderer\<close>

text \<open>
  C2. On a source that passes the checker, the fragment is chosen by the first of the
  substrings \<open>rectangle\<close>, \<open>bar\<close>, \<open>mindmap\<close> that occurs anywhere in the source,
  compared character by character: \<open>rectangle\<close> wins whatever else occurs, then
  \<open>bar\<close>, then \<open>mindmap\<close>; with none of them the source itself is wrapped in
  \<^verbatim>\<open><pre>\<close> tags, unescaped.
\<close>

theorem renderTikZ_priority:
  assumes "validateTikZSyntax (tikzCode st) = []"
  shows
    "((\<exists>p q. tikzCode st = p @ ''rectangle'' @ q)
        \<longrightarrow> renderedSVG (renderTikZ st) = Some rectangle_svg)
     \<and> (\<not> (\<exists>p q. tikzCode st = p @ ''rectangle'' @ q)
          \<and> (\<exists>p q. tikzCode st = p @ ''bar'' @ q)
        \<longrightarrow> renderedSVG (renderTikZ st) = Some bar_svg)
     \<and> (\<not> (\<exists>p q. tikzCode st = p @ ''rectangle'' @ q)
          \<and> \<not> (\<exists>p q. tikzCode st = p @ ''bar'' @ q)
          \<and> (\<exists>p q. tikzCode st = p @ ''mindmap'' @ q)
        \<longrightarrow> renderedSVG (renderTikZ st) = Some mindmap_svg)
     \<and> (\<not> (\<exists>p q. tikzCode st = p @ ''rectangle'' @ q)
          \<and> \<not> (\<exists>p q. tikzCode st = p @ ''bar'' @ q)
          \<and> \<not> (\<exists>p q. tikzCode st = p @ ''mindmap'' @ q)
        \<longrightarrow> renderedSVG (renderTikZ st) = Some (''<pre>'' @ tikzCode st @ ''</pre>''))"
  using assms unfolding String_includes_iff [symmetric]
  by (simp add: renderTikZ_def)

lemma spec_synthesize_includes:
  "spec_synthesize source =
     (if String_includes source ''rectangle'' then rectangle_svg
      else if String_includes source ''bar'' then bar_svg
      else if String_includes source ''mindmap'' then mindmap_svg
      else ''<pre>'' @ source @ ''</pre>'')"
  by (simp add: spec_synthesize_def String_includes_sublist)

lemma renderTikZ_cases:
  "renderTikZ st =
     (if validateTikZSyntax (tikzCode st) \<noteq> []
      then st\<lparr>error := Some (Array_join (validateTikZSyntax (tikzCode st)) '', ''),
              renderedSVG := None\<rparr>
      else st\<lparr>error := None, renderedSVG := Some (spec_synthesize (tikzCode st))\<rparr>)"
  by (simp add: renderTikZ_def spec_synthesize_includes Let_def)


text \<open>One source for each of the four rules; the last one differs from the keywords by case only.\<close>

theorem renderTikZ_priority_witness:
  "renderedSVG (renderTikZ (initial_editor\<lparr>tikzCode :=
       CHR 0x5C # ''begin{tikzpicture} rectangle bar mindmap '' @ CHR 0x5C # ''end{tikzpicture}''\<rparr>))
     = Some rectangle_svg
   \<and> renderedSVG (renderTikZ (initial_editor\<lparr>tikzCode :=
       CHR 0x5C # ''begin{tikzpicture} mindmap bar '' @ CHR 0x5C # ''end{tikzpicture}''\<rparr>))
     = Some bar_svg
   \<and> renderedSVG (renderTikZ (initial_editor\<lparr>tikzCode :=
       CHR 0x5C # ''begin{tikzpicture} mindmap '' @ CHR 0x5C # ''end{tikzpicture}''\<rparr>))
     = Some mindmap_svg
   \<and> renderedSVG (renderTikZ (initial_editor\<lparr>tikzCode :=
       CHR 0x5C # ''begin{tikzpicture} Rectangle BAR '' @ CHR 0x5C # ''end{tikzpicture}''\<rparr>))
     = Some (''<pre>'' @ CHR 0x5C # ''begin{tikzpicture} Rectangle BAR '' @ CHR 0x5C # ''end{tikzpicture}'' @ ''</pre>'')"
proof -
  let ?s1 = "initial_editor\<lparr>tikzCode :=
       CHR 0x5C # ''begin{tikzpicture} rectangle bar mindmap '' @ CHR 0x5C # ''end{tikzpicture}''\<rparr>"
  let ?s2 = "initial_editor\<lparr>tikzCode :=
       CHR 0x5C # ''begin{tikzpicture} mindmap bar '' @ CHR 0x5C # ''end{tikzpicture}''\<rparr>"
  let ?s3 = "initial_editor\<lparr>tikzCode :=
       CHR 0x5C # ''begin{tikzpicture} mindmap '' @ CHR 0x5C # ''end{tikzpicture}''\<rparr>"
  let ?s4 = "initial_editor\<lparr>tikzCode :=
       CHR 0x5C # ''begin{tikzpicture} Rectangle BAR '' @ CHR 0x5C # ''end{tikzpicture}''\<rparr>"
  have v: "validateTikZSyntax (tikzCode ?s1) = []" "validateTikZSyntax (tikzCode ?s2) = []"
    "validateTikZSyntax (tikzCode ?s3) = []" "validateTikZSyntax (tikzCode ?s4) = []"
    by (simp_all add: validateTikZSyntax_def)
  have "\<exists>p q. tikzCode ?s1 = p @ ''rectangle'' @ q"
    unfolding String_includes_iff [symmetric] by simp
  with renderTikZ_priority [OF v(1)]
  have r1: "renderedSVG (renderTikZ ?s1) = Some rectangle_svg" by blast
  have "\<not> (\<exists>p q. tikzCode ?s2 = p @ ''rectangle'' @ q) \<and> (\<exists>p q. tikzCode ?s2 = p @ ''bar'' @ q)"
    unfolding String_includes_iff [symmetric] by simp
  with renderTikZ_priority [OF v(2)]
  have r2: "renderedSVG (renderTikZ ?s2) = Some bar_svg" by blast
  have "\<not> (\<exists>p q. tikzCode ?s3 = p @ ''rectangle'' @ q) \<and> \<not> (\<exists>p q. tikzCode ?s3 = p @ ''bar'' @ q)
      \<and> (\<exists>p q. tikzCode ?s3 = p @ ''mindmap'' @ q)"
    unfolding String_includes_iff [symmetric] by simp
  with renderTikZ_priority [OF v(3)]
  have r3: "renderedSVG (renderTikZ ?s3) = Some mindmap_svg" by blast
  have "\<not> (\<exists>p q. tikzCode ?s4 = p @ ''rectangle'' @ q) \<and> \<not> (\<exists>p q. tikzCode ?s4 = p @ ''bar'' @ q)
      \<and> \<not> (\<exists>p q. tikzCode ?s4 = p @ ''mindmap'' @ q)"
    unfolding String_includes_iff [symmetric] by simp
  with renderTikZ_priority [OF v(4)]
  have r4: "renderedSVG (renderTikZ ?s4) = Some (''<pre>'' @ tikzCode ?s4 @ ''</pre>'')" by blast
  from r1 r2 r3 r4 show ?thesis by simp
qed

lemma validate_four:
  "validateTikZSyntax s \<in>
     {[], [''Missing '' @ CHR 0x5C # ''begin{tikzpicture}''],
      [''Missing '' @ CHR 0x5C # ''end{tikzpicture}''],
      [''Missing '' @ CHR 0x5C # ''begin{tikzpicture}'', ''Missing '' @ CHR 0x5C # ''end{tikzpicture}'']}"
  by (simp add: validate_cases)

lemma report_determines_defects:
  assumes "Array_join (validateTikZSyntax s) '', '' = Array_join (validateTikZSyntax s') '', ''"
  shows "validateTikZSyntax s = validateTikZSyntax s'"
  using assms validate_four [of s] validate_four [of s'] by auto

text \<open>
  C4. \<^verbatim>\<open>renderTikZ\<close> runs the checker on the current source. With defects it
  stores their report and clears the preview, and leaves the rest of the state as it
  was; without defects it clears the report and stores the synthesizer's fragment. The
  report is the joined text of the defects (C10) and determines them. On the empty
  source both markers are reported missing and there is no preview.
\<close>

theorem renderTikZ_gate:
  "(validateTikZSyntax (tikzCode st) \<noteq> [] \<longrightarrow>
      renderTikZ st = st\<lparr>error := Some (Array_join (validateTikZSyntax (tikzCode st)) '', ''),
                          renderedSVG := None\<rparr>)
   \<and> (validateTikZSyntax (tikzCode st) = [] \<longrightarrow>
      renderTikZ st = st\<lparr>error := None, renderedSVG := Some (spec_synthesize (tikzCode st))\<rparr>)
   \<and> (error (renderTikZ st) = error (renderTikZ st') \<longleftrightarrow>
        validateTikZSyntax (tikzCode st) = validateTikZSyntax (tikzCode st'))
   \<and> (tikzCode st = [] \<longrightarrow>
        validateTikZSyntax (tikzCode st) =
          [''Missing '' @ CHR 0x5C # ''begin{tikzpicture}'', ''Missing '' @ CHR 0x5C # ''end{tikzpicture}'']
        \<and> renderedSVG (renderTikZ st) = None)"
proof -
  have "error (renderTikZ st) = error (renderTikZ st') \<longleftrightarrow>
        validateTikZSyntax (tikzCode st) = validateTikZSyntax (tikzCode st')"
    using report_determines_defects [of "tikzCode st" "tikzCode st'"]
    by (auto simp: renderTikZ_cases)
  moreover have "tikzCode st = [] \<longrightarrow>
        validateTikZSyntax (tikzCode st) =
          [''Missing '' @ CHR 0x5C # ''begin{tikzpicture}'', ''Missing '' @ CHR 0x5C # ''end{tikzpicture}'']
        \<and> renderedSVG (renderTikZ st) = None"
    by (simp add: renderTikZ_cases validate_cases)
  ultimately show ?thesis by (simp add: renderTikZ_cases)
qed

text \<open>The empty source of the initial state, and a source with both markers.\<close>

theorem renderTikZ_gate_witness:
  "renderTikZ initial_editor =
     initial_editor\<lparr>error := Some (''Missing '' @ CHR 0x5C # ''begin{tikzpicture}, Missing '' @ CHR 0x5C # ''end{tikzpicture}''),
                     renderedSVG := None\<rparr>
   \<and> renderTikZ (initial_editor\<lparr>tikzCode := CHR 0x5C # ''begin{tikzpicture} rectangle '' @ CHR 0x5C # ''end{tikzpicture}''\<rparr>) =
     initial_editor\<lparr>tikzCode := CHR 0x5C # ''begin{tikzpicture} rectangle '' @ CHR 0x5C # ''end{tikzpicture}'',
                     error := None, renderedSVG := Some rectangle_svg\<rparr>"
proof -
  let ?ok = "initial_editor\<lparr>tikzCode := CHR 0x5C # ''begin{tikzpicture} rectangle '' @ CHR 0x5C # ''end{tikzpicture}''\<rparr>"
  have a: "validateTikZSyntax (tikzCode initial_editor) =
      [''Missing '' @ CHR 0x5C # ''begin{tikzpicture}'', ''Missing '' @ CHR 0x5C # ''end{tikzpicture}'']"
    by (simp add: validateTikZSyntax_def initial_editor_def)
  have b: "validateTikZSyntax (tikzCode ?ok) = []"
    by (simp add: validateTikZSyntax_def)
  have c: "spec_synthesize (tikzCode ?ok) = rectangle_svg"
    by (simp add: spec_synthesize_includes)
  from renderTikZ_gate [of initial_editor initial_editor] a
  have "renderTikZ initial_editor = initial_editor\<lparr>error := Some (Array_join
      [''Missing '' @ CHR 0x5C # ''begin{tikzpicture}'', ''Missing '' @ CHR 0x5C # ''end{tikzpicture}''] '', ''),
      renderedSVG := None\<rparr>"
    by simp
  moreover from renderTikZ_gate [of ?ok ?ok] b c
  have "renderTikZ ?ok = ?ok\<lparr>error := None, renderedSVG := Some rectangle_svg\<rparr>"
    by simp
  ultimately show ?thesis by simp
qed

text \<open>
  C10. When the checker reports defects, \<^verbatim>\<open>renderTikZ\<close> stores them as one string:
  the messages in the checker's order with \<^verbatim>\<open>", "\<close> between them. The
  \<^verbatim>\<open>error\<close> cell holds a string or \<^verbatim>\<open>null\<close>, never a sequence. For the empty
  source the string is \<^verbatim>\<open>Missing \begin{tikzpicture}, Missing \end{tikzpicture}\<close>.
\<close>

theorem renderTikZ_report:
  "(validateTikZSyntax (tikzCode st) \<noteq> [] \<longrightarrow>
      error (renderTikZ st) = Some (Array_join (validateTikZSyntax (tikzCode st)) '', ''))
   \<and> (validateTikZSyntax (tikzCode st) = [a, b] \<longrightarrow>
      error (renderTikZ st) = Some (a @ '', '' @ b))
   \<and> (validateTikZSyntax (tikzCode st) = [a] \<longrightarrow> error (renderTikZ st) = Some a)
   \<and> error (renderTikZ (st\<lparr>tikzCode := []\<rparr>)) =
        Some (''Missing '' @ CHR 0x5C # ''begin{tikzpicture}, Missing '' @ CHR 0x5C # ''end{tikzpicture}'')"
  by (simp add: renderTikZ_cases validate_cases)

text \<open>A source with one defect, and the empty source with two.\<close>

theorem renderTikZ_report_witness:
  "error (renderTikZ (initial_editor\<lparr>tikzCode := CHR 0x5C # ''begin{tikzpicture} bar''\<rparr>)) =
     Some (''Missing '' @ CHR 0x5C # ''end{tikzpicture}'')
   \<and> error (renderTikZ initial_editor) =
     Some (''Missing '' @ CHR 0x5C # ''begin{tikzpicture}, Missing '' @ CHR 0x5C # ''end{tikzpicture}'')"
proof -
  let ?st = "initial_editor\<lparr>tikzCode := CHR 0x5C # ''begin{tikzpicture} bar''\<rparr>"
  have one: "validateTikZSyntax (tikzCode ?st) = [''Missing '' @ CHR 0x5C # ''end{tikzpicture}'']"
    by (simp add: validateTikZSyntax_def)
  have two: "validateTikZSyntax (tikzCode initial_editor) =
      [''Missing '' @ CHR 0x5C # ''begin{tikzpicture}'', ''Missing '' @ CHR 0x5C # ''end{tikzpicture}'']"
    by (simp add: validateTikZSyntax_def initial_editor_def)
  from renderTikZ_report [where st = ?st and a = "''Missing '' @ CHR 0x5C # ''end{tikzpicture}''"] one
  have "error (renderTikZ ?st) = Some (''Missing '' @ CHR 0x5C # ''end{tikzpicture}'')"
    by simp
  moreover
  from renderTikZ_report [of initial_editor "''Missing '' @ CHR 0x5C # ''begin{tikzpicture}''"
      "''Missing '' @ CHR 0x5C # ''end{tikzpicture}''"] two
  have "error (renderTikZ initial_editor) =
     Some ((''Missing '' @ CHR 0x5C # ''begin{tikzpicture}'') @ '', '' @ ''Missing '' @ CHR 0x5C # ''end{tikzpicture}'')"
    by simp
  ultimately show ?thesis by simp
qed

section \<open>The default templates render to their fragments\<close>

lemma default_sources:
  "validateTikZSyntax rectangle_template = []"
  "validateTikZSyntax bar_template = []"
  "validateTikZSyntax chart_template = []"
  "String_includes rectangle_template ''rectangle''"
  "\<not> String_includes bar_template ''rectangle''"
  "String_includes bar_template ''bar''"
  "\<not> String_includes chart_template ''rectangle''"
  "\<not> String_includes chart_template ''bar''"
  "String_includes chart_template ''mindmap''"
  by code_simp+

lemma default_markers:
  "String_includes rectangle_template (CHR 0x5C # ''begin{tikzpicture}'')"
  "String_includes rectangle_template (CHR 0x5C # ''end{tikzpicture}'')"
  "String_includes bar_template (CHR 0x5C # ''begin{tikzpicture}'')"
  "String_includes bar_template (CHR 0x5C # ''end{tikzpicture}'')"
  "String_includes chart_template (CHR 0x5C # ''begin{tikzpicture}'')"
  "String_includes chart_template (CHR 0x5C # ''end{tikzpicture}'')"
  by code_simp+

lemma default_nonempty:
  "rectangle_template \<noteq> []" "bar_template \<noteq> []" "chart_template \<noteq> []"
  by (simp_all add: rectangle_template_def bar_template_def chart_template_def)

text \<open>
  C8. With the default templates loaded, selecting one by its name and rendering gives no
  defect report and the fragment of that template: the rectangle fragment for
  \<open>Rectangle with Circle\<close>, the bar fragment for \<open>Bar Graph\<close>, the chart fragment for
  \<open>Organizational Chart\<close>. Each default source contains both markers and its own
  keyword, and no keyword of a higher priority.
\<close>

theorem default_templates_render:
  assumes "templates st = defaultTemplates"
  shows
    "renderTikZ (handleTemplateChange ''Rectangle with Circle'' st) =
       st\<lparr>tikzCode := rectangle_template, error := None, renderedSVG := Some rectangle_svg\<rparr>
     \<and> renderTikZ (handleTemplateChange ''Bar Graph'' st) =
       st\<lparr>tikzCode := bar_template, error := None, renderedSVG := Some bar_svg\<rparr>
     \<and> renderTikZ (handleTemplateChange ''Organizational Chart'' st) =
       st\<lparr>tikzCode := chart_template, error := None, renderedSVG := Some mindmap_svg\<rparr>
     \<and> (\<forall>t \<in> {rectangle_template, bar_template, chart_template}.
          (\<exists>p q. t = p @ (CHR 0x5C # ''begin{tikzpicture}'') @ q)
          \<and> (\<exists>p q. t = p @ (CHR 0x5C # ''end{tikzpicture}'') @ q))
     \<and> (\<exists>p q. rectangle_template = p @ ''rectangle'' @ q)
     \<and> (\<exists>p q. bar_template = p @ ''bar'' @ q)
     \<and> \<not> (\<exists>p q. bar_template = p @ ''rectangle'' @ q)
     \<and> (\<exists>p q. chart_template = p @ ''mindmap'' @ q)
     \<and> \<not> (\<exists>p q. chart_template = p @ ''rectangle'' @ q)
     \<and> \<not> (\<exists>p q. chart_template = p @ ''bar'' @ q)"
proof -
  have sel:
    "handleTemplateChange ''Rectangle with Circle'' st = st\<lparr>tikzCode := rectangle_template\<rparr>"
    "handleTemplateChange ''Bar Graph'' st = st\<lparr>tikzCode := bar_template\<rparr>"
    "handleTemplateChange ''Organizational Chart'' st = st\<lparr>tikzCode := chart_template\<rparr>"
    using assms default_nonempty
    by (simp_all add: handleTemplateChange_def get_property_def defaultTemplates_def)
  have r:
    "renderTikZ (st\<lparr>tikzCode := rectangle_template\<rparr>) =
       st\<lparr>tikzCode := rectangle_template, error := None, renderedSVG := Some rectangle_svg\<rparr>"
    "renderTikZ (st\<lparr>tikzCode := bar_template\<rparr>) =
       st\<lparr>tikzCode := bar_template, error := None, renderedSVG := Some bar_svg\<rparr>"
    "renderTikZ (st\<lparr>tikzCode := chart_template\<rparr>) =
       st\<lparr>tikzCode := chart_template, error := None, renderedSVG := Some mindmap_svg\<rparr>"
    by (simp_all add: renderTikZ_cases spec_synthesize_includes default_sources)
  show ?thesis
    unfolding String_includes_iff [symmetric] sel r
    by (simp add: default_sources default_markers)
qed

text \<open>The state after a mount on an empty storage.\<close>

theorem default_templates_render_witness:
  "renderTikZ (handleTemplateChange ''Bar Graph'' (initial_editor\<lparr>templates := defaultTemplates\<rparr>)) =
     initial_editor\<lparr>templates := defaultTemplates, tikzCode := bar_template, error := None,
                     renderedSVG := Some bar_svg\<rparr>"
  using default_templates_render [of "initial_editor\<lparr>templates := defaultTemplates\<rparr>"]
  by simp

section \<open>The persistent slot\<close>

text \<open>
  C9. The second effect is a conditional write: a mapping that is not empty replaces
  the value under \<^verbatim>\<open>tikzTemplates\<close> by its serialisation; an empty mapping leaves the
  storage as it is. No other key is touched.
\<close>

theorem persist_effect_conditional:
  "(t \<noteq> [] \<longrightarrow> persist_effect t ls = ls(''tikzTemplates'' \<mapsto> JSON_stringify t))
   \<and> (t = [] \<longrightarrow> persist_effect t ls = ls)
   \<and> (\<forall>k. k \<noteq> ''tikzTemplates'' \<longrightarrow> getItem (persist_effect t ls) k = getItem ls k)"
  by (simp add: persist_effect_def Object_keys_def setItem_def getItem_def)

text \<open>A mapping with one template, and the empty mapping, on a storage with two keys.\<close>

theorem persist_effect_conditional_witness:
  "persist_effect [(''X'', ''text'')] (Map.empty(''tikzTemplates'' \<mapsto> ''{}'', ''other'' \<mapsto> ''1''))
     = [''tikzTemplates'' \<mapsto> JSON_stringify [(''X'', ''text'')], ''other'' \<mapsto> ''1'']
   \<and> persist_effect [] (Map.empty(''tikzTemplates'' \<mapsto> ''{}'', ''other'' \<mapsto> ''1''))
     = [''tikzTemplates'' \<mapsto> ''{}'', ''other'' \<mapsto> ''1'']"
proof -
  let ?ls = "Map.empty(''tikzTemplates'' \<mapsto> ''{}'', ''other'' \<mapsto> ''1'')"
  have ne: "[(''X'', ''text'')] \<noteq> ([] :: templates)" by simp
  from persist_effect_conditional [of "[(''X'', ''text'')]" ?ls] ne
  have "persist_effect [(''X'', ''text'')] ?ls = ?ls(''tikzTemplates'' \<mapsto> JSON_stringify [(''X'', ''text'')])"
    by blast
  moreover have "?ls(''tikzTemplates'' \<mapsto> JSON_stringify [(''X'', ''text'')])
      = [''tikzTemplates'' \<mapsto> JSON_stringify [(''X'', ''text'')], ''other'' \<mapsto> ''1'']"
    by (rule ext) simp
  moreover from persist_effect_conditional [of "[]" ?ls]
  have "persist_effect [] ?ls = ?ls" by blast
  ultimately show ?thesis by simp
qed

lemma defaultTemplates_nonempty: "defaultTemplates \<noteq> []"
  by (simp add: defaultTemplates_def)

lemma load_effect_absent:
  "getItem ls ''tikzTemplates'' = None \<or> getItem ls ''tikzTemplates'' = Some []
   \<Longrightarrow> load_effect ls = Inr (Templates defaultTemplates)"
  by (auto simp: load_effect_def)

lemma mount_absent:
  assumes "getItem ls ''tikzTemplates'' = None \<or> getItem ls ''tikzTemplates'' = Some []"
  shows "mount ls = Mounted (initial_editor\<lparr>templates := defaultTemplates\<rparr>)
                            (ls(''tikzTemplates'' \<mapsto> JSON_stringify defaultTemplates))"
  using defaultTemplates_nonempty
  by (simp add: mount_def load_effect_absent [OF assms] persist_effect_def Object_keys_def
      setItem_def initial_editor_def)

lemma mount_Mounted:
  assumes "mount ls = Mounted st ls'"
  shows "st = initial_editor\<lparr>templates := templates st\<rparr> \<and> ls' = persist_effect (templates st) ls
         \<and> load_effect ls = Inr (Templates (templates st))"
  using assms
  by (auto simp: mount_def Let_def persist_effect_def Object_keys_def initial_editor_def
      split: sum.splits loaded.splits)

lemma insert_index_nonempty: "insert_index i k v ps \<noteq> []"
  by (cases ps) (auto split: option.splits if_splits)

lemma define_property_nonempty: "define_property k v ps \<noteq> []"
  by (auto simp: define_property_def insert_index_nonempty split: option.splits)

text \<open>
  C5 as stated fails: mounting the component on a storage without the key writes the
  serialised default templates under the key, with no action of the user.
\<close>

theorem startup_write_back_counterexample:
  "mount Map.empty =
     Mounted (initial_editor\<lparr>templates := defaultTemplates\<rparr>)
             [''tikzTemplates'' \<mapsto> JSON_stringify defaultTemplates]
   \<and> getItem Map.empty ''tikzTemplates'' = None"
  using mount_absent [of Map.empty] by (simp add: getItem_def)

text \<open>
  C5, amended. After a mount the storage is the one the second effect leaves for the
  loaded mapping: when the slot is absent or holds the empty string, the default
  templates are loaded and their serialisation is written to the slot. Selecting a
  template, editing the source and rendering never write the storage; saving a template
  writes the serialisation of the new mapping.
\<close>

theorem startup_write_back:
  "(mount ls = Mounted st ls' \<longrightarrow> ls' = persist_effect (templates st) ls)
   \<and> (getItem ls ''tikzTemplates'' = None \<or> getItem ls ''tikzTemplates'' = Some [] \<longrightarrow>
        mount ls = Mounted (initial_editor\<lparr>templates := defaultTemplates\<rparr>)
                           (ls(''tikzTemplates'' \<mapsto> JSON_stringify defaultTemplates)))
   \<and> snd (step (SelectTemplate name) (st, ls)) = ls
   \<and> snd (step (EditSource v) (st, ls)) = ls
   \<and> snd (step Render (st, ls)) = ls
   \<and> snd (step (SaveTemplate name v) (st, ls)) =
        ls(''tikzTemplates'' \<mapsto> JSON_stringify (templates (handleTemplateModification name v st)))"
proof -
  have "templates (handleTemplateModification name v st) \<noteq> []"
    by (simp add: handleTemplateModification_def define_property_nonempty)
  then have "snd (step (SaveTemplate name v) (st, ls)) =
        ls(''tikzTemplates'' \<mapsto> JSON_stringify (templates (handleTemplateModification name v st)))"
    by (simp add: Let_def persist_effect_def Object_keys_def setItem_def)
  moreover have "mount ls = Mounted st ls' \<longrightarrow> ls' = persist_effect (templates st) ls"
    using mount_Mounted by blast
  ultimately show ?thesis
    using mount_absent [of ls] by simp
qed

text \<open>A storage whose slot holds the empty string.\<close>

theorem startup_write_back_witness:
  "mount (Map.empty(''tikzTemplates'' \<mapsto> [])) =
     Mounted (initial_editor\<lparr>templates := defaultTemplates\<rparr>)
             [''tikzTemplates'' \<mapsto> JSON_stringify defaultTemplates]"
proof -
  have "getItem (Map.empty(''tikzTemplates'' \<mapsto> [])) ''tikzTemplates'' = Some []"
    by (simp add: getItem_def)
  with startup_write_back [of "Map.empty(''tikzTemplates'' \<mapsto> [])"]
  show ?thesis by simp
qed

section \<open>Loading the templates\<close>

text \<open>
  C1 as stated fails on a snapshot that is present and malformed: a truncated object is
  not loaded as the defaults, the \<^verbatim>\<open>SyntaxError\<close> of \<^verbatim>\<open>JSON.parse\<close> leaves the
  effect; and a snapshot that is valid JSON but no object is loaded as it is.
\<close>

theorem load_effect_malformed_counterexample:
  "load_effect [''tikzTemplates'' \<mapsto> ''{\"Bar Graph\":\"x\"''] = Inl SyntaxError
   \<and> load_effect [''tikzTemplates'' \<mapsto> ''[1]''] = Inr (Other (JArray [JNumber ''1'']))"
proof -
  have "JSON_parse ''{\"Bar Graph\":\"x\"'' = None" by code_simp
  moreover have "JSON_parse ''[1]'' = Some (JArray [JNumber ''1''])" by code_simp
  ultimately show ?thesis
    by (simp add: load_effect_def getItem_def)
qed

text \<open>
  C1, amended. When the slot is absent, or holds the empty string, the first effect
  loads the default templates, whose names are \<open>Rectangle with Circle\<close>,
  \<open>Bar Graph\<close> and \<open>Organizational Chart\<close>. When the slot holds a text that is not
  empty, the effect throws the \<^verbatim>\<open>SyntaxError\<close> of \<^verbatim>\<open>JSON.parse\<close> for a text that
  is not JSON, and loads the parsed value otherwise.
\<close>

theorem load_effect_cases:
  "(getItem ls ''tikzTemplates'' = None \<or> getItem ls ''tikzTemplates'' = Some [] \<longrightarrow>
      load_effect ls = Inr (Templates defaultTemplates))
   \<and> map fst defaultTemplates = [''Rectangle with Circle'', ''Bar Graph'', ''Organizational Chart'']
   \<and> (\<forall>s. getItem ls ''tikzTemplates'' = Some s \<and> s \<noteq> [] \<and> JSON_parse s = None \<longrightarrow>
          load_effect ls = Inl SyntaxError)
   \<and> (\<forall>s v. getItem ls ''tikzTemplates'' = Some s \<and> s \<noteq> [] \<and> JSON_parse s = Some v \<longrightarrow>
          load_effect ls = Inr (case as_templates v of None \<Rightarrow> Other v | Some t \<Rightarrow> Templates t))"
  by (auto simp: load_effect_def defaultTemplates_def split: option.splits)

text \<open>An empty storage, a truncated snapshot and a snapshot with one template.\<close>

theorem load_effect_cases_witness:
  "load_effect Map.empty = Inr (Templates defaultTemplates)
   \<and> load_effect [''tikzTemplates'' \<mapsto> ''{\"a\":''] = Inl SyntaxError
   \<and> load_effect [''tikzTemplates'' \<mapsto> ''{\"a\":\"b\"}''] = Inr (Templates [(''a'', ''b'')])"
proof -
  have a: "getItem Map.empty ''tikzTemplates'' = None"
    by (simp add: getItem_def)
  have b: "getItem [''tikzTemplates'' \<mapsto> ''{\"a\":''] ''tikzTemplates'' = Some ''{\"a\":''"
    "JSON_parse ''{\"a\":'' = None"
    by (simp add: getItem_def, code_simp)
  have c: "getItem [''tikzTemplates'' \<mapsto> ''{\"a\":\"b\"}''] ''tikzTemplates'' = Some ''{\"a\":\"b\"}''"
    "JSON_parse ''{\"a\":\"b\"}'' = Some (JObject [([97], JString [98])])"
    by (simp add: getItem_def, code_simp)
  have d: "as_templates (JObject [([97], JString [98])]) = Some [(''a'', ''b'')]"
    by code_simp
  from load_effect_cases [of Map.empty] a
  have e1: "load_effect Map.empty = Inr (Templates defaultTemplates)" by blast
  from load_effect_cases [of "[''tikzTemplates'' \<mapsto> ''{\"a\":'']"] b
  have e2: "load_effect [''tikzTemplates'' \<mapsto> ''{\"a\":''] = Inl SyntaxError" by blast
  from load_effect_cases [of "[''tikzTemplates'' \<mapsto> ''{\"a\":\"b\"}'']"] c
  have "load_effect [''tikzTemplates'' \<mapsto> ''{\"a\":\"b\"}''] =
      Inr (case as_templates (JObject [([97], JString [98])]) of None \<Rightarrow> Other (JObject [([97], JString [98])])
           | Some t \<Rightarrow> Templates t)"
    by blast
  then have e3: "load_effect [''tikzTemplates'' \<mapsto> ''{\"a\":\"b\"}''] = Inr (Templates [(''a'', ''b'')])"
    by (simp only: d option.case)
  from e1 e2 e3 show ?thesis by blast
qed

section \<open>The preview is derived\<close>

lemma step_preview_frame:
  "a \<noteq> Render \<Longrightarrow>
     renderedSVG (fst (step a (st, ls))) = renderedSVG st \<and> error (fst (step a (st, ls))) = error st"
  by (cases a)
    (simp_all add: handleTemplateChange_def handleCodeChange_def handleTemplateModification_def Let_def)

lemma preview_step:
  assumes "(error st \<noteq> None \<longrightarrow> renderedSVG st = None)
     \<and> (renderedSVG st \<noteq> None \<longrightarrow>
          (\<exists>src. validateTikZSyntax src = [] \<and> renderedSVG st = Some (spec_synthesize src)))"
  shows "(error (fst (step a (st, ls))) \<noteq> None \<longrightarrow> renderedSVG (fst (step a (st, ls))) = None)
     \<and> (renderedSVG (fst (step a (st, ls))) \<noteq> None \<longrightarrow>
          (\<exists>src. validateTikZSyntax src = []
             \<and> renderedSVG (fst (step a (st, ls))) = Some (spec_synthesize src)))"
proof (cases "a = Render")
  case True
  then show ?thesis
    by (auto simp: renderTikZ_cases)
next
  case False
  with step_preview_frame [OF False, of st ls] assms show ?thesis
    by simp
qed

lemma mount_initial:
  assumes "mount ls = Mounted st ls'"
  shows "tikzCode st = [] \<and> error st = None \<and> renderedSVG st = None"
proof -
  from mount_Mounted [OF assms] have "st = initial_editor\<lparr>templates := templates st\<rparr>" by simp
  then show ?thesis
    by (metis editor.select_convs(1,3,4) editor.surjective editor.update_convs(2) initial_editor_def)
qed

lemma reachable_preview:
  "reachable w \<Longrightarrow>
     (error (fst w) \<noteq> None \<longrightarrow> renderedSVG (fst w) = None)
     \<and> (renderedSVG (fst w) \<noteq> None \<longrightarrow>
          (\<exists>src. validateTikZSyntax src = [] \<and> renderedSVG (fst w) = Some (spec_synthesize src)))"
proof (induction rule: reachable.induct)
  case (mounted ls st ls')
  from mount_initial [OF mounted] show ?case by simp
next
  case (stepped w a)
  then show ?case using preview_step [of "fst w" a "snd w"] by simp
qed

text \<open>
  C6. In every state the component reaches from a mount by the user's actions: when
  there is a defect report there is no preview, and a preview is the synthesizer's
  fragment for a source without defects. Only \<^verbatim>\<open>renderTikZ\<close> changes the preview and
  the report; selecting a template, editing and saving a template leave both as they
  were. A mounted component starts with the empty source, no report and no preview.
\<close>

theorem preview_invariant:
  assumes "reachable (st, ls)"
  shows
    "(error st \<noteq> None \<longrightarrow> renderedSVG st = None)
     \<and> (renderedSVG st \<noteq> None \<longrightarrow>
          (\<exists>src. validateTikZSyntax src = [] \<and> renderedSVG st = Some (spec_synthesize src)))
     \<and> (\<forall>a. a \<noteq> Render \<longrightarrow>
          renderedSVG (fst (step a (st, ls))) = renderedSVG st
          \<and> error (fst (step a (st, ls))) = error st)
     \<and> (\<forall>ls0 st0 ls0'. mount ls0 = Mounted st0 ls0' \<longrightarrow>
          tikzCode st0 = [] \<and> error st0 = None \<and> renderedSVG st0 = None)"
  using reachable_preview [OF assms] step_preview_frame [of _ st ls] mount_initial
  by simp

text \<open>The state after a mount on an empty storage and one render of the empty source.\<close>

theorem preview_invariant_witness:
  "error (fst (step Render (initial_editor\<lparr>templates := defaultTemplates\<rparr>,
                            [''tikzTemplates'' \<mapsto> JSON_stringify defaultTemplates]))) \<noteq> None
   \<and> renderedSVG (fst (step Render (initial_editor\<lparr>templates := defaultTemplates\<rparr>,
                            [''tikzTemplates'' \<mapsto> JSON_stringify defaultTemplates]))) = None"
proof -
  let ?w = "(initial_editor\<lparr>templates := defaultTemplates\<rparr>,
             [''tikzTemplates'' \<mapsto> JSON_stringify defaultTemplates])"
  have "mount Map.empty = Mounted (fst ?w) (snd ?w)"
    using mount_absent [of Map.empty] by (simp add: getItem_def)
  then have "reachable ?w" using reachable.mounted by fastforce
  then have "reachable (step Render ?w)" by (rule reachable.stepped)
  then have r: "reachable (fst (step Render ?w), snd (step Render ?w))" by simp
  have e: "error (fst (step Render ?w)) \<noteq> None"
    by (simp add: renderTikZ_def validateTikZSyntax_def initial_editor_def)
  with preview_invariant [OF r] show ?thesis by blast
qed

section \<open>Reading back a quoted string\<close>

lemma hex_value_hex_digit: "d < 16 \<Longrightarrow> hex_value (hex_digit d) = Some d"
proof -
  assume "d < 16"
  then have "d \<in> {0, 1, 2, 3, 4, 5, 6, 7, 8, 9, 10, 11, 12, 13, 14, 15}" by simp arith
  moreover have
    "hex_value (hex_digit 0) = Some 0" "hex_value (hex_digit 1) = Some 1"
    "hex_value (hex_digit 2) = Some 2" "hex_value (hex_digit 3) = Some 3"
    "hex_value (hex_digit 4) = Some 4" "hex_value (hex_digit 5) = Some 5"
    "hex_value (hex_digit 6) = Some 6" "hex_value (hex_digit 7) = Some 7"
    "hex_value (hex_digit 8) = Some 8" "hex_value (hex_digit 9) = Some 9"
    "hex_value (hex_digit 10) = Some 10" "hex_value (hex_digit 11) = Some 11"
    "hex_value (hex_digit 12) = Some 12" "hex_value (hex_digit 13) = Some 13"
    "hex_value (hex_digit 14) = Some 14" "hex_value (hex_digit 15) = Some 15"
    by code_simp+
  ultimately show ?thesis by auto
qed

lemma hex_value_zero: "hex_value CHR ''0'' = Some 0"
  by code_simp

lemma hex4_control:
  assumes "n < 32"
  shows "hex4 [CHR ''0'', CHR ''0'', hex_digit (n div 16), hex_digit (n mod 16)] = Some n"
proof -
  have "n div 16 < 16" "n mod 16 < 16" using assms by auto
  then show ?thesis
    by (simp add: hex_value_hex_digit hex_value_zero)
qed

lemma escape_values:
  "escape_value CHR ''b'' = Some 8" "escape_value CHR ''t'' = Some 9"
  "escape_value CHR ''n'' = Some 10" "escape_value CHR ''f'' = Some 12"
  "escape_value CHR ''r'' = Some 13" "escape_value (CHR 0x22) = Some 34"
  "escape_value (CHR 0x5C) = Some 92"
  by (simp_all add: escape_value_def)

lemma lex_string_quote_char:
  "lex_string (quote_char c @ rest) =
     map_option (\<lambda>(s, r). (of_char c # s, r)) (lex_string rest)"
proof -
  consider
      "c = CHR 0x08" | "c = CHR 0x09" | "c = CHR 0x0A" | "c = CHR 0x0C" | "c = CHR 0x0D"
    | "c = CHR 0x22" | "c = CHR 0x5C"
    | "c \<notin> {CHR 0x08, CHR 0x09, CHR 0x0A, CHR 0x0C, CHR 0x0D, CHR 0x22, CHR 0x5C}"
        "(of_char c :: nat) < 0x20"
    | "c \<notin> {CHR 0x08, CHR 0x09, CHR 0x0A, CHR 0x0C, CHR 0x0D, CHR 0x22, CHR 0x5C}"
        "\<not> (of_char c :: nat) < 0x20"
    by blast
  then show ?thesis
  proof cases
    case 8
    then have q: "quote_char c = CHR 0x5C # ''u00'' @ [hex_digit (of_char c div 16), hex_digit (of_char c mod 16)]"
      by (simp add: quote_char_def)
    show ?thesis
      unfolding q using hex4_control [OF 8(2)]
      by simp
  next
    case 9
    then have q: "quote_char c = [c]"
      by (simp add: quote_char_def)
    show ?thesis
      unfolding q using 9 by simp
  qed (simp_all add: quote_char_def escape_values)
qed

lemma lex_string_quoted:
  "lex_string (concat (map quote_char s) @ CHR 0x22 # rest) = Some (map of_char s, rest)"
  by (induction s) (simp_all add: lex_string_quote_char)

section \<open>Parsing a serialised mapping\<close>

lemma parse_from_quoted:
  "parse_from (JSON_quote k @ rest) s =
     (case step_token (TString (map of_char k)) s of
        None \<Rightarrow> None
      | Some s' \<Rightarrow> parse_from rest s')"
  by (simp add: parse_from_def JSON_quote_def lex_string_quoted split: option.splits)

lemma parse_from_colon:
  "parse_from (CHR '':'' # rest) s =
     (case step_token Colon s of None \<Rightarrow> None | Some s' \<Rightarrow> parse_from rest s')"
  by (simp add: parse_from_def split: option.splits)

lemma parse_from_comma:
  "parse_from (CHR '','' # rest) s =
     (case step_token Comma s of None \<Rightarrow> None | Some s' \<Rightarrow> parse_from rest s')"
  by (simp add: parse_from_def split: option.splits)

lemma parse_from_lbrace:
  "parse_from (CHR ''{'' # rest) s =
     (case step_token LBrace s of None \<Rightarrow> None | Some s' \<Rightarrow> parse_from rest s')"
  by (simp add: parse_from_def split: option.splits)

lemma parse_from_rbrace:
  "parse_from ''}'' s = step_token RBrace s"
  by (simp add: parse_from_def split: option.splits)

lemma parse_from_member:
  assumes "md = FirstKey \<or> md = Key"
  shows "parse_from (JSON_quote k @ '':'' @ JSON_quote v @ rest) (md, InObject acc # st) =
     parse_from rest (AfterValue, InObject ((map of_char k, JString (map of_char v)) # acc) # st)"
  using assms
  by (auto simp: parse_from_quoted parse_from_colon)

lemma parse_from_members:
  assumes "md = FirstKey \<or> md = Key"
  shows "parse_from (Array_join (map (\<lambda>(k, v). JSON_quote k @ '':'' @ JSON_quote v) (m # ms)) '','' @ ''}'')
           (md, [InObject acc]) =
         Some (Finished (JObject (rev acc @ map (\<lambda>(k, v). (map of_char k, JString (map of_char v))) (m # ms))), [])"
  using assms
proof (induction ms arbitrary: m acc md)
  case Nil
  obtain k v where m: "m = (k, v)" by (cases m)
  show ?case
    using parse_from_member [OF Nil, of k v "''}''" acc "[]"]
    by (simp add: m parse_from_rbrace)
next
  case (Cons m' ms)
  obtain k v where m: "m = (k, v)" by (cases m)
  have "parse_from (Array_join (map (\<lambda>(k, v). JSON_quote k @ '':'' @ JSON_quote v) (m # m' # ms)) '','' @ ''}'')
           (md, [InObject acc]) =
        parse_from (Array_join (map (\<lambda>(k, v). JSON_quote k @ '':'' @ JSON_quote v) (m' # ms)) '','' @ ''}'')
           (Key, [InObject ((map of_char k, JString (map of_char v)) # acc)])"
    using parse_from_member [OF Cons.prems, of k v _ acc "[]"]
    by (simp add: m parse_from_comma)
  then show ?case
    using Cons.IH [of Key m' "(map of_char k, JString (map of_char v)) # acc"]
    by (simp add: m)
qed

lemma JSON_parse_stringify:
  "JSON_parse (JSON_stringify t) =
     Some (JObject (map (\<lambda>(k, v). (map of_char k, JString (map of_char v))) t))"
proof (cases t)
  case Nil
  then show ?thesis
    by (simp add: JSON_parse_def JSON_stringify_def parse_from_lbrace parse_from_rbrace)
next
  case (Cons m ms)
  then show ?thesis
    using parse_from_members [of FirstKey m ms "[]"]
    by (simp add: JSON_parse_def JSON_stringify_def parse_from_lbrace)
qed

section \<open>Objects keep their enumeration order\<close>

lemma latin1_of_char: "latin1 (map of_char k) = Some k"
  by (simp add: latin1_def list_all_iff)

lemma those_string_members:
  "those (map string_member (map (\<lambda>(k, v). (map of_char k, JString (map of_char v))) t)) = Some t"
  by (induction t) (auto simp: latin1_of_char)

lemma as_templates_members:
  "as_templates (JObject (map (\<lambda>(k, v). (map of_char k, JString (map of_char v))) t)) = Some (spread t)"
  by (simp only: as_templates.simps those_string_members option.map)

lemma array_index_to_decimal: "array_index k = Some i \<Longrightarrow> k = to_decimal i"
  by (auto simp: array_index_def split: if_splits)

lemma array_index_inj: "array_index k = Some i \<Longrightarrow> array_index k' = Some i \<Longrightarrow> k = k'"
  using array_index_to_decimal by metis

lemma ordered_keys_tail: "ordered_keys (k # ks) \<Longrightarrow> ordered_keys ks"
  by (cases ks) simp_all

lemma ordered_keys_prefix: "ordered_keys (ks @ [k]) \<Longrightarrow> ordered_keys ks"
  by (induction ks rule: ordered_keys.induct) (auto split: option.splits)

lemma ordered_keys_before_index:
  "ordered_keys (k1 # ks @ [k]) \<Longrightarrow> array_index k = Some i \<Longrightarrow>
     \<exists>j. array_index k1 = Some j \<and> j < i"
proof (induction ks arbitrary: k1)
  case Nil
  then show ?case by (auto split: option.splits)
next
  case (Cons k2 ks)
  from Cons.prems have "ordered_keys (k2 # ks @ [k])" by simp
  from Cons.IH [OF this Cons.prems(2)] obtain j2 where "array_index k2 = Some j2" "j2 < i" by blast
  with Cons.prems(1) show ?case by (auto split: option.splits)
qed

lemma insert_index_last:
  "ordered_keys (map fst ps @ [k]) \<Longrightarrow> array_index k = Some i \<Longrightarrow>
     insert_index i k v ps = ps @ [(k, v)]"
proof (induction ps)
  case Nil
  then show ?case by simp
next
  case (Cons p ps)
  obtain k1 v1 where p: "p = (k1, v1)" by (cases p)
  from Cons.prems have o: "ordered_keys (k1 # map fst ps @ [k])" by (simp add: p)
  from ordered_keys_before_index [OF o Cons.prems(2)] obtain j where
    j: "array_index k1 = Some j" "j < i" by blast
  from o have "ordered_keys (map fst ps @ [k])" by (rule ordered_keys_tail)
  from Cons.IH [OF this Cons.prems(2)] j show ?case by (simp add: p)
qed

lemma define_property_last:
  assumes "is_object (ps @ [(k, v)])"
  shows "define_property k v ps = ps @ [(k, v)]"
proof -
  from assms have new: "k \<notin> fst ` set ps" and o: "ordered_keys (map fst ps @ [k])"
    by (auto simp: is_object_def)
  show ?thesis
    using new insert_index_last [OF o]
    by (auto simp: define_property_def split: option.splits)
qed

lemma is_object_prefix: "is_object (ps @ [p]) \<Longrightarrow> is_object ps"
  using ordered_keys_prefix [of "map fst ps" "fst p"] by (simp add: is_object_def)

lemma spread_is_object: "is_object ps \<Longrightarrow> spread ps = ps"
proof (induction ps rule: rev_induct)
  case Nil
  then show ?case by (simp add: spread_def)
next
  case (snoc p ps)
  obtain k v where p: "p = (k, v)" by (cases p)
  from snoc.prems have "is_object ps" by (rule is_object_prefix)
  with snoc.IH have "spread ps = ps" by simp
  then have "spread (ps @ [p]) = define_property k v ps"
    by (simp add: spread_def p)
  with define_property_last [of ps k v] snoc.prems show ?case by (simp add: p)
qed

lemma ordered_keys_append_other:
  "ordered_keys ks \<Longrightarrow> array_index k = None \<Longrightarrow> ordered_keys (ks @ [k])"
  by (induction ks rule: ordered_keys.induct) (auto split: option.splits)

lemma ordered_keys_insert_index:
  assumes "ordered_keys (map fst ps)" "k \<notin> fst ` set ps" "array_index k = Some i"
  shows "ordered_keys (map fst (insert_index i k v ps))"
  using assms
proof (induction ps)
  case Nil
  then show ?case by simp
next
  case (Cons p ps)
  obtain k1 v1 where p: "p = (k1, v1)" by (cases p)
  from Cons.prems have tl: "ordered_keys (map fst ps)" and new: "k \<notin> fst ` set ps" and ne: "k \<noteq> k1"
    using ordered_keys_tail [of k1 "map fst ps"] by (auto simp: p)
  note IH = Cons.IH [OF tl new Cons.prems(3)]
  show ?case
  proof (cases "array_index k1")
    case None
    with Cons.prems show ?thesis by (simp add: p)
  next
    case (Some j)
    show ?thesis
    proof (cases "j < i")
      case True
      show ?thesis
      proof (cases ps)
        case Nil
        with Some True Cons.prems(3) show ?thesis by (simp add: p)
      next
        case (Cons p2 ps2)
        obtain k2 v2 where p2: "p2 = (k2, v2)" by (cases p2)
        from IH Cons.prems(1) Some True \<open>array_index k = Some i\<close>
        show ?thesis
          by (auto simp: p Cons p2 split: option.splits if_splits)
      qed
    next
      case False
      from ne array_index_inj [OF Cons.prems(3), of k1] Some have "i \<noteq> j" by auto
      with False have "i < j" by simp
      with Some Cons.prems show ?thesis by (simp add: p)
    qed
  qed
qed

lemma set_insert_index: "fst ` set (insert_index i k v ps) = insert k (fst ` set ps)"
  by (induction ps) (force split: option.splits if_splits)+

lemma distinct_insert_index:
  "distinct (map fst ps) \<Longrightarrow> k \<notin> fst ` set ps \<Longrightarrow> distinct (map fst (insert_index i k v ps))"
proof (induction ps)
  case Nil
  then show ?case by simp
next
  case (Cons p ps)
  then show ?case
    using set_insert_index [of i k v ps]
    by (cases p) (auto split: option.splits)
qed

lemma fst_update: "fst \<circ> (\<lambda>(k', v'). if k' = k then (k', v) else (k', v')) = fst"
  by auto

lemma is_object_define_property:
  assumes "is_object ps"
  shows "is_object (define_property k v ps)"
proof (cases "k \<in> fst ` set ps")
  case True
  with assms show ?thesis
    by (simp add: define_property_def is_object_def fst_update)
next
  case False
  show ?thesis
  proof (cases "array_index k")
    case None
    with False assms ordered_keys_append_other [of "map fst ps" k] show ?thesis
      by (auto simp: define_property_def is_object_def)
  next
    case (Some i)
    with False assms ordered_keys_insert_index [of ps k i v] distinct_insert_index [of ps k i v]
    show ?thesis
      by (simp add: define_property_def is_object_def)
  qed
qed

lemma map_of_insert_index:
  "k \<notin> fst ` set ps \<Longrightarrow>
     map_of (insert_index i k v ps) k' = (if k' = k then Some v else map_of ps k')"
  by (induction ps) (auto split: option.splits)

lemma map_of_update_other:
  "x \<noteq> k \<Longrightarrow>
     map_of (map (\<lambda>(k', v'). if k' = k then (k', v) else (k', v')) ps) x = map_of ps x"
  by (induction ps) auto

lemma map_of_update_same:
  "k \<in> fst ` set ps \<Longrightarrow>
     map_of (map (\<lambda>(k', v'). if k' = k then (k', v) else (k', v')) ps) k = Some v"
  by (induction ps) auto

lemma map_of_append_new:
  "k \<notin> fst ` set ps \<Longrightarrow>
     map_of (ps @ [(k, v)]) k' = (if k' = k then Some v else map_of ps k')"
  by (induction ps) auto

lemma get_property_define_property:
  "get_property (define_property k v ps) k' = (if k' = k then Some v else get_property ps k')"
proof (cases "k \<in> fst ` set ps")
  case True
  then show ?thesis
    by (simp add: get_property_def define_property_def map_of_update_other map_of_update_same)
next
  case False
  then show ?thesis
    by (cases "array_index k")
      (simp_all add: get_property_def define_property_def map_of_insert_index map_of_append_new
        del: map_of_append)
qed

section \<open>Saving a template and loading it again\<close>

lemma is_object_spread: "is_object (spread ps)"
proof -
  have "is_object acc \<Longrightarrow> is_object (fold (\<lambda>(k, v). define_property k v) ps acc)" for acc
    by (induction ps arbitrary: acc) (auto simp: is_object_define_property)
  from this [of "[]"] show ?thesis
    by (simp add: spread_def is_object_def)
qed

lemma is_object_defaultTemplates: "is_object defaultTemplates"
proof -
  have "array_index ''Bar Graph'' = None" "array_index ''Organizational Chart'' = None"
    by code_simp+
  then show ?thesis
    by (simp add: is_object_def defaultTemplates_def)
qed

lemma as_templates_is_object: "as_templates v = Some t \<Longrightarrow> is_object t"
  by (cases v) (auto simp: is_object_spread)

lemma load_effect_is_object: "load_effect ls = Inr (Templates t) \<Longrightarrow> is_object t"
  by (auto simp: load_effect_def is_object_defaultTemplates as_templates_is_object
      split: option.splits if_splits)

lemma JSON_stringify_nonempty: "JSON_stringify t \<noteq> []"
  by (simp add: JSON_stringify_def)

lemma load_effect_stringify:
  assumes "is_object t" "getItem ls ''tikzTemplates'' = Some (JSON_stringify t)"
  shows "load_effect ls = Inr (Templates t)"
  using assms
  by (simp add: load_effect_def JSON_stringify_nonempty JSON_parse_stringify as_templates_members
      spread_is_object del: as_templates.simps)

lemma reachable_is_object: "reachable w \<Longrightarrow> is_object (templates (fst w))"
proof (induction rule: reachable.induct)
  case (mounted ls st ls')
  from mount_Mounted [OF mounted] have "load_effect ls = Inr (Templates (templates st))" by simp
  then show ?case by (simp add: load_effect_is_object)
next
  case (stepped w a)
  obtain st ls where w: "w = (st, ls)" by (cases w)
  from stepped.IH show ?case
    by (cases a)
      (simp_all add: w handleTemplateChange_def handleCodeChange_def renderTikZ_cases
        handleTemplateModification_def Let_def is_object_define_property is_object_spread)
qed

text \<open>
  C7. In every state the component reaches, saving a template under a name writes the
  new mapping to the storage, and a fresh load of that storage returns the mapping the
  component now holds: it binds the name to the saved text and every other name as
  before.
\<close>

theorem save_load_roundtrip:
  assumes "reachable (st, ls)"
  shows
    "load_effect (snd (step (SaveTemplate name text) (st, ls))) =
       Inr (Templates (templates (fst (step (SaveTemplate name text) (st, ls)))))
     \<and> get_property (templates (fst (step (SaveTemplate name text) (st, ls)))) name = Some text
     \<and> (\<forall>k. k \<noteq> name \<longrightarrow>
          get_property (templates (fst (step (SaveTemplate name text) (st, ls)))) k =
          get_property (templates st) k)"
proof -
  let ?t = "define_property name text (templates st)"
  from reachable_is_object [OF assms] have obj: "is_object (templates st)" by simp
  then have t: "templates (fst (step (SaveTemplate name text) (st, ls))) = ?t"
    by (simp add: handleTemplateModification_def Let_def spread_is_object)
  have "?t \<noteq> []" by (rule define_property_nonempty)
  then have "getItem (snd (step (SaveTemplate name text) (st, ls))) ''tikzTemplates'' =
      Some (JSON_stringify ?t)"
    using obj
    by (simp add: handleTemplateModification_def Let_def spread_is_object persist_effect_def
        Object_keys_def setItem_def getItem_def)
  from load_effect_stringify [OF is_object_define_property [OF obj] this]
  show ?thesis
    unfolding t by (simp add: get_property_define_property)
qed

text \<open>Saving a template \<open>X\<close> after a mount on an empty storage.\<close>

theorem save_load_roundtrip_witness:
  "load_effect (snd (step (SaveTemplate ''X'' ''text'')
       (initial_editor\<lparr>templates := defaultTemplates\<rparr>,
        [''tikzTemplates'' \<mapsto> JSON_stringify defaultTemplates]))) =
     Inr (Templates (defaultTemplates @ [(''X'', ''text'')]))"
proof -
  let ?w = "(initial_editor\<lparr>templates := defaultTemplates\<rparr>,
             [''tikzTemplates'' \<mapsto> JSON_stringify defaultTemplates])"
  have "mount Map.empty = Mounted (fst ?w) (snd ?w)"
    using mount_absent [of Map.empty] by (simp add: getItem_def)
  then have r: "reachable ?w" using reachable.mounted by fastforce
  have "is_object (defaultTemplates @ [(''X'', ''text'')])"
  proof -
    have "array_index ''Bar Graph'' = None" "array_index ''Organizational Chart'' = None"
      "array_index ''X'' = None"
      by code_simp+
    then show ?thesis
      by (simp add: is_object_def defaultTemplates_def)
  qed
  then have "define_property ''X'' ''text'' defaultTemplates = defaultTemplates @ [(''X'', ''text'')]"
    by (rule define_property_last)
  then have "templates (fst (step (SaveTemplate ''X'' ''text'') ?w)) = defaultTemplates @ [(''X'', ''text'')]"
    by (simp add: handleTemplateModification_def Let_def spread_is_object is_object_defaultTemplates)
  with save_load_roundtrip [OF r, of "''X''" "''text''"] show ?thesis
    by simp
qed

end
